theory Spec2Isabelle
  imports Complex_Main
begin

section \<open>Conventions of the embedding\<close>

text \<open>
  Python floats are modelled as \<^typ>\<open>real\<close>: rounding, infinities and NaN are outside the
  model. Exceptions are values of \<open>py_error\<close>; a function that can raise returns
  \<open>py_error + 'a\<close> with \<open>Inl\<close> for the exception. Values read from the JSON configuration
  files (which are not part of the sources) are fields of the state records; the counts
  among them (input variables, membership functions, epochs) are natural numbers. The wall
  clock and the draws of the random number generator are arguments of the functions that
  read them. Log messages are kept only where a property speaks about them. Calls into the
  GPIO library are taken to succeed.
\<close>

datatype py_error = ValueError | IndexError | ZeroDivisionError | AttributeError

text \<open>Division of Python floats: a zero divisor raises.\<close>

definition py_div :: "real \<Rightarrow> real \<Rightarrow> py_error + real" where
  "py_div x y = (if y = 0 then Inl ZeroDivisionError else Inr (x / y))"

text \<open>Reading a list at a non-negative index: out of range raises.\<close>

definition py_index :: "'a list \<Rightarrow> nat \<Rightarrow> py_error + 'a" where
  "py_index xs i = (if i < length xs then Inr (xs ! i) else Inl IndexError)"

text \<open>Assigning into a one-dimensional numpy array at a non-negative index.\<close>

definition np_setitem :: "real list \<Rightarrow> nat \<Rightarrow> real \<Rightarrow> py_error + real list" where
  "np_setitem xs i v = (if i < length xs then Inr (xs[i := v]) else Inl IndexError)"

text \<open>\<open>np.clip(x, lo, hi)\<close> is \<open>minimum(maximum(x, lo), hi)\<close>.\<close>

definition np_clip :: "real \<Rightarrow> real \<Rightarrow> real \<Rightarrow> real" where
  "np_clip x lo hi = min (max x lo) hi"

text \<open>\<open>np.zeros(n)\<close>.\<close>

definition np_zeros :: "nat \<Rightarrow> real list" where
  "np_zeros n = replicate n 0"

text \<open>
  \<open>np.dot(M, v)\<close> for a matrix of shape \<open>(length M, ncols)\<close> and a vector: the shapes must
  be aligned, otherwise numpy raises ValueError.
\<close>

definition dot :: "real list \<Rightarrow> real list \<Rightarrow> real" where
  "dot row v = sum_list (map2 (*) row v)"

definition np_dot :: "real list list \<Rightarrow> nat \<Rightarrow> real list \<Rightarrow> py_error + real list" where
  "np_dot M ncols v =
     (if ncols = length v \<and> list_all (\<lambda>row. length row = ncols) M
      then Inr (map (\<lambda>row. dot row v) M)
      else Inl ValueError)"

text \<open>
  Elementwise product of two one-dimensional arrays, with numpy's broadcasting of an
  array of length one; other length mismatches raise ValueError.
\<close>

definition np_mul :: "real list \<Rightarrow> real list \<Rightarrow> py_error + real list" where
  "np_mul xs ys =
     (if length xs = length ys then Inr (map2 (*) xs ys)
      else if length xs = 1 then Inr (map (\<lambda>y. hd xs * y) ys)
      else if length ys = 1 then Inr (map (\<lambda>x. x * hd ys) xs)
      else Inl ValueError)"

section \<open>ANFIS controller (anfis_controller.py)\<close>

datatype log_entry =
    InfoEpoch nat nat real
  | InfoGoalReached
  | ErrorControl py_error
  | ErrorTraining py_error

record anfis_state =
  num_inputs :: nat
  num_mf :: nat
  num_rules :: nat
  error_ranges :: "real list list"
  delta_error_ranges :: "real list list"
  consequent_params :: "real list list"
  learning_rate :: real
  momentum :: real
  error_goal :: real
  training_epochs :: nat
  last_error :: "real option"
  is_trained :: bool
  training_epoch :: nat
  anfis_log :: "log_entry list"

record anfis_config =
  cfg_input_vars :: nat
  cfg_membership_functions :: nat
  cfg_training_epochs :: nat
  cfg_error_ranges :: "real list list"
  cfg_delta_error_ranges :: "real list list"
  cfg_learning_rate :: real
  cfg_momentum :: real
  cfg_error_goal :: real

text \<open>
  \<open>__init__\<close> with \<open>_initialize_parameters\<close>: the consequent matrix has
  \<open>num_mf ** num_inputs\<close> rows and \<open>num_inputs + 1\<close> columns; its entries come from
  \<open>np.random.randn\<close>, here the function \<open>rnd\<close> of row and column.
\<close>

definition initialize_parameters :: "anfis_config \<Rightarrow> (nat \<Rightarrow> nat \<Rightarrow> real) \<Rightarrow> anfis_state" where
  "initialize_parameters cfg rnd =
     \<lparr> num_inputs = cfg_input_vars cfg,
       num_mf = cfg_membership_functions cfg,
       num_rules = cfg_membership_functions cfg ^ cfg_input_vars cfg,
       error_ranges = cfg_error_ranges cfg,
       delta_error_ranges = cfg_delta_error_ranges cfg,
       consequent_params =
         map (\<lambda>k. map (rnd k) [0 ..< cfg_input_vars cfg + 1])
             [0 ..< cfg_membership_functions cfg ^ cfg_input_vars cfg],
       learning_rate = cfg_learning_rate cfg,
       momentum = cfg_momentum cfg,
       error_goal = cfg_error_goal cfg,
       training_epochs = cfg_training_epochs cfg,
       last_error = None,
       is_trained = False,
       training_epoch = 0,
       anfis_log = [] \<rparr>"

text \<open>
  \<open>membership_function\<close>: the unpacking \<open>a, b, c = params\<close> raises ValueError unless
  there are exactly three parameters; an unsupported type raises ValueError.
\<close>

definition membership_function :: "real \<Rightarrow> real list \<Rightarrow> string \<Rightarrow> py_error + real" where
  "membership_function x params mf_type =
     (if mf_type = ''trimf'' then
        (case params of
           [a, b, c] \<Rightarrow>
             if x \<le> a \<or> x \<ge> c then Inr 0
             else if a < x \<and> x \<le> b then py_div (x - a) (b - a)
             else py_div (c - x) (c - b)
         | _ \<Rightarrow> Inl ValueError)
      else Inl ValueError)"

text \<open>The two loops that collect the membership grades of one input.\<close>

fun mf_grades :: "real \<Rightarrow> real list list \<Rightarrow> py_error + real list" where
  "mf_grades x [] = Inr []"
| "mf_grades x (mf_range # rest) =
     (case membership_function x mf_range ''trimf'' of
        Inl e \<Rightarrow> Inl e
      | Inr grade \<Rightarrow>
          (case mf_grades x rest of
             Inl e \<Rightarrow> Inl e
           | Inr grades \<Rightarrow> Inr (grade # grades)))"

text \<open>
  The nested rule loop. The loop state is the array \<open>firing_strengths\<close> and the counter
  \<open>rule_idx\<close>; \<open>js\<close> and \<open>is\<close> are the remaining values of \<open>range(num_mf)\<close>.
\<close>

fun rule_inner_loop ::
  "real list \<Rightarrow> real list \<Rightarrow> nat \<Rightarrow> nat list \<Rightarrow> real list \<times> nat \<Rightarrow> py_error + real list \<times> nat" where
  "rule_inner_loop eg dg i [] st = Inr st"
| "rule_inner_loop eg dg i (j # js) (fs, rule_idx) =
     (case py_index eg i of
        Inl e \<Rightarrow> Inl e
      | Inr gi \<Rightarrow>
          (case py_index dg j of
             Inl e \<Rightarrow> Inl e
           | Inr gj \<Rightarrow>
               (case np_setitem fs rule_idx (min gi gj) of
                  Inl e \<Rightarrow> Inl e
                | Inr fs' \<Rightarrow> rule_inner_loop eg dg i js (fs', rule_idx + 1))))"

fun rule_outer_loop ::
  "real list \<Rightarrow> real list \<Rightarrow> nat \<Rightarrow> nat list \<Rightarrow> real list \<times> nat \<Rightarrow> py_error + real list \<times> nat" where
  "rule_outer_loop eg dg n [] st = Inr st"
| "rule_outer_loop eg dg n (i # is) st =
     (case rule_inner_loop eg dg i [0 ..< n] st of
        Inl e \<Rightarrow> Inl e
      | Inr st' \<Rightarrow> rule_outer_loop eg dg n is st')"

definition calculate_rule_firing_strengths ::
  "anfis_state \<Rightarrow> real \<Rightarrow> real \<Rightarrow> py_error + real list" where
  "calculate_rule_firing_strengths s error delta_error =
     (case mf_grades error (error_ranges s) of
        Inl e \<Rightarrow> Inl e
      | Inr error_mf_grades \<Rightarrow>
          (case mf_grades delta_error (delta_error_ranges s) of
             Inl e \<Rightarrow> Inl e
           | Inr delta_error_mf_grades \<Rightarrow>
               (case rule_outer_loop error_mf_grades delta_error_mf_grades (num_mf s)
                       [0 ..< num_mf s] (np_zeros (num_rules s), 0) of
                  Inl e \<Rightarrow> Inl e
                | Inr (firing_strengths, rule_idx) \<Rightarrow> Inr firing_strengths)))"

text \<open>The fixed epsilon added to the sum of the firing strengths.\<close>

definition epsilon :: real where
  "epsilon = 1 / 10 ^ 10"

definition normalize_firing :: "real list \<Rightarrow> real list" where
  "normalize_firing firing_strengths =
     map (\<lambda>f. f / (sum_list firing_strengths + epsilon)) firing_strengths"

text \<open>
  The body of the \<open>try\<close> block of \<open>calculate_control\<close> after the update of
  \<open>last_error\<close> and before the clip: the weighted sum, or the exception raised on the way.
\<close>

definition control_raw :: "anfis_state \<Rightarrow> real \<Rightarrow> real \<Rightarrow> py_error + real" where
  "control_raw s error delta_error =
     (case calculate_rule_firing_strengths s error delta_error of
        Inl e \<Rightarrow> Inl e
      | Inr firing_strengths \<Rightarrow>
          (case np_dot (consequent_params s) (num_inputs s + 1) [1, error, delta_error] of
             Inl e \<Rightarrow> Inl e
           | Inr rule_outputs \<Rightarrow>
               (case np_mul (normalize_firing firing_strengths) rule_outputs of
                  Inl e \<Rightarrow> Inl e
                | Inr weighted \<Rightarrow> Inr (sum_list weighted))))"

text \<open>
  \<open>calculate_control\<close>: \<open>delta_error\<close> is derived from the previous error with the fixed
  sample time 0.01; the \<open>measurements\<close> argument is never read. Every exception is caught,
  logged, and answered with 0.0.
\<close>

definition delta_of :: "anfis_state \<Rightarrow> real \<Rightarrow> real" where
  "delta_of s error =
     (error - (case last_error s of None \<Rightarrow> error | Some le \<Rightarrow> le)) / (1 / 100)"

definition calculate_control :: "anfis_state \<Rightarrow> real \<Rightarrow> anfis_state \<times> real" where
  "calculate_control s error =
     (let delta_error = delta_of s error;
          s1 = s\<lparr>last_error := Some error\<rparr>
      in case control_raw s1 error delta_error of
           Inr control \<Rightarrow> (s1, np_clip control (- 100) 100)
         | Inl e \<Rightarrow> (s1\<lparr>anfis_log := anfis_log s1 @ [ErrorControl e]\<rparr>, 0))"

text \<open>
  \<open>train\<close>: the inner loop over the samples. Only the error of a sample is passed to
  \<open>calculate_control\<close>; the loop variable \<open>error\<close> is then overwritten by the
  difference to the target. No statement of the loop assigns to the consequent matrix.
\<close>

fun train_samples :: "anfis_state \<Rightarrow> (real \<times> real \<times> real) list \<Rightarrow> real \<Rightarrow> anfis_state \<times> real" where
  "train_samples s [] epoch_error = (s, epoch_error)"
| "train_samples s ((error, delta_error, target) # rest) epoch_error =
     (case calculate_control s error of
        (s', output) \<Rightarrow> train_samples s' rest (epoch_error + (target - output) ^ 2))"

text \<open>
  The loop over the epochs; the list holds the remaining values of \<open>range(num_epochs)\<close>.
  It returns the state together with the exception that left the loop, if any: the
  division by \<open>len(training_data)\<close> raises on an empty sample set, after the epoch
  counter has been incremented.
\<close>

fun train_epochs ::
  "anfis_state \<Rightarrow> (real \<times> real \<times> real) list \<Rightarrow> nat \<Rightarrow> nat list \<Rightarrow> anfis_state \<times> py_error option" where
  "train_epochs s training_data num_epochs [] = (s, None)"
| "train_epochs s training_data num_epochs (epoch # rest) =
     (case train_samples s training_data 0 of
        (s1, epoch_error) \<Rightarrow>
          (let s2 = s1\<lparr>training_epoch := training_epoch s1 + 1\<rparr> in
           case py_div epoch_error (real (length training_data)) of
             Inl e \<Rightarrow> (s2, Some e)
           | Inr mse \<Rightarrow>
               (let s3 = s2\<lparr>anfis_log := anfis_log s2 @ [InfoEpoch (epoch + 1) num_epochs mse]\<rparr> in
                if mse < error_goal s3
                then (s3\<lparr>anfis_log := anfis_log s3 @ [InfoGoalReached]\<rparr>, None)
                else train_epochs s3 training_data num_epochs rest)))"

definition train :: "anfis_state \<Rightarrow> (real \<times> real \<times> real) list \<Rightarrow> anfis_state" where
  "train s training_data =
     (case train_epochs s training_data (training_epochs s) [0 ..< training_epochs s] of
        (s', None) \<Rightarrow> s'\<lparr>is_trained := True\<rparr>
      | (s', Some e) \<Rightarrow> s'\<lparr>anfis_log := anfis_log s' @ [ErrorTraining e]\<rparr>)"


subsection \<open>Reference definitions in the words of the specification\<close>



section \<open>Hardware controller (hardware_controller.py)\<close>

text \<open>The constants of \<open>_initialize_simulation\<close> that the simulation step reads.\<close>

definition motor_inertia :: real where "motor_inertia = 1 / 100"
definition motor_damping :: real where "motor_damping = 1 / 10"
definition motor_torque_constant :: real where "motor_torque_constant = 1 / 100"
definition load_torque :: real where "load_torque = 1 / 10"
definition base_current :: real where "base_current = 2 / 10"
definition max_speed :: real where "max_speed = 1750"

record hw_state =
  simulation_mode :: bool
  gpio_available :: bool
  running :: bool
  emergency_stop_active :: bool
  current_speed :: real
  current_current :: real
  target_speed :: real
  duty_cycle :: real
  last_sim_time :: real
  min_speed_rpm :: real
  max_speed_rpm :: real
  motor_in1 :: bool
  motor_in2 :: bool
  pwm_duty :: real

record measurements =
  m_speed :: real
  m_current :: real
  m_duty_cycle :: real
  m_target_speed :: real
  m_timestamp :: real

text \<open>
  \<open>_update_simulation\<close>. The wall clock and the two draws of \<open>np.random.normal\<close> are
  arguments.
\<close>

definition update_simulation :: "hw_state \<Rightarrow> real \<Rightarrow> real \<Rightarrow> real \<Rightarrow> hw_state" where
  "update_simulation h current_time speed_noise current_noise =
     (let dt = current_time - last_sim_time h;
          motor_input = duty_cycle h / 100;
          acceleration =
            (motor_input * motor_torque_constant * max_speed
               - motor_damping * current_speed h - load_torque) / motor_inertia;
          speed1 = current_speed h + acceleration * dt;
          speed2 = np_clip speed1 0 max_speed;
          speed3 = speed2 + speed_noise;
          speed4 = max 0 speed3;
          current1 = base_current + \<bar>motor_input\<bar> * 2 + (speed4 / max_speed) * 3;
          current2 = current1 + current_noise;
          current3 = max 0 current2
      in h\<lparr>last_sim_time := current_time, current_speed := speed4, current_current := current3\<rparr>)"

text \<open>One iteration of \<open>_monitoring_loop\<close>; \<open>_update_measurements\<close> does nothing.\<close>

definition monitoring_iteration :: "hw_state \<Rightarrow> real \<Rightarrow> real \<Rightarrow> real \<Rightarrow> hw_state" where
  "monitoring_iteration h current_time speed_noise current_noise =
     (if running h \<and> \<not> emergency_stop_active h then
        (if simulation_mode h then update_simulation h current_time speed_noise current_noise
         else h)
      else h)"

definition set_target_speed :: "hw_state \<Rightarrow> real \<Rightarrow> hw_state" where
  "set_target_speed h speed =
     h\<lparr>target_speed := np_clip speed (min_speed_rpm h) (max_speed_rpm h)\<rparr>"

definition set_duty_cycle :: "hw_state \<Rightarrow> real \<Rightarrow> hw_state" where
  "set_duty_cycle h dc =
     (let dc' = np_clip dc (- 100) 100;
          h1 = (if simulation_mode h then h\<lparr>duty_cycle := dc'\<rparr>
                else if gpio_available h then
                  (if dc' \<ge> 0 then h\<lparr>motor_in1 := True, motor_in2 := False, pwm_duty := \<bar>dc'\<bar>\<rparr>
                   else h\<lparr>motor_in1 := False, motor_in2 := True, pwm_duty := \<bar>dc'\<bar>\<rparr>)
                else h)
      in h1\<lparr>duty_cycle := dc'\<rparr>)"

definition get_measurements :: "hw_state \<Rightarrow> real \<Rightarrow> measurements" where
  "get_measurements h now =
     \<lparr> m_speed = current_speed h, m_current = current_current h,
       m_duty_cycle = duty_cycle h, m_target_speed = target_speed h, m_timestamp = now \<rparr>"

definition start :: "hw_state \<Rightarrow> hw_state" where
  "start h = h\<lparr>running := True, emergency_stop_active := False\<rparr>"

definition stop :: "hw_state \<Rightarrow> hw_state" where
  "stop h = set_duty_cycle (h\<lparr>running := False\<rparr>) 0"

definition emergency_stop :: "hw_state \<Rightarrow> hw_state" where
  "emergency_stop h = set_duty_cycle (h\<lparr>emergency_stop_active := True, running := False\<rparr>) 0"

text \<open>
  \<open>reset_emergency_stop\<close>; \<open>pin_high\<close> is what \<open>GPIO.input\<close> returns for the
  emergency-stop pin (read only on real hardware).
\<close>

definition reset_emergency_stop :: "hw_state \<Rightarrow> bool \<Rightarrow> hw_state \<times> bool" where
  "reset_emergency_stop h pin_high =
     (if simulation_mode h \<or> (gpio_available h \<and> pin_high)
      then (h\<lparr>emergency_stop_active := False\<rparr>, True)
      else (h, False))"

section \<open>Main controller (main_controller.py)\<close>

record main_state =
  mc_running :: bool
  control_mode :: string
  logging_enabled :: bool
  mc_target_speed :: "real option"
  hardware :: hw_state
  anfis :: anfis_state
  session_data :: "measurements list"
  mc_log :: "py_error list"

text \<open>
  \<open>DataLogger.log_data\<close>: the sample is appended, and a buffer of 1000 samples is written
  out and cleared (the write is taken to succeed; a failed write is caught inside the
  logger). It never raises.
\<close>

definition log_data :: "main_state \<Rightarrow> measurements \<Rightarrow> main_state" where
  "log_data m meas =
     (let buf = session_data m @ [meas]
      in m\<lparr>session_data := (if length buf \<ge> 1000 then [] else buf)\<rparr>)"

definition manual_control :: "main_state \<Rightarrow> measurements \<Rightarrow> main_state" where
  "manual_control m meas = m"

text \<open>
  \<open>_anfis_control\<close>: \<open>self.target_speed\<close> exists only after \<open>set_target_speed\<close>; before
  that the read raises AttributeError, which is caught and logged.
\<close>

definition anfis_control :: "main_state \<Rightarrow> measurements \<Rightarrow> main_state" where
  "anfis_control m meas =
     (case mc_target_speed m of
        None \<Rightarrow> m\<lparr>mc_log := mc_log m @ [AttributeError]\<rparr>
      | Some ts \<Rightarrow>
          (let error = ts - m_speed meas in
           case calculate_control (anfis m) error of
             (a', control_action) \<Rightarrow>
               m\<lparr>anfis := a', hardware := set_duty_cycle (hardware m) control_action\<rparr>))"

text \<open>The body of the \<open>while self.running\<close> loop of \<open>_control_loop\<close>: one scheduler tick.\<close>

definition control_loop_body :: "main_state \<Rightarrow> real \<Rightarrow> main_state" where
  "control_loop_body m now =
     (let meas = get_measurements (hardware m) now;
          m1 = (if logging_enabled m then log_data m meas else m)
      in if control_mode m1 = ''anfis'' then anfis_control m1 meas
         else manual_control m1 meas)"

text \<open>The loop test followed by the body: \<open>None\<close> when the loop has ended.\<close>

definition control_loop_iteration :: "main_state \<Rightarrow> real \<Rightarrow> main_state option" where
  "control_loop_iteration m now =
     (if mc_running m then Some (control_loop_body m now) else None)"

definition mc_start :: "main_state \<Rightarrow> main_state" where
  "mc_start m = (m\<lparr>mc_running := True\<rparr>)\<lparr>hardware := start (hardware m)\<rparr>"

definition mc_stop :: "main_state \<Rightarrow> main_state" where
  "mc_stop m = (m\<lparr>mc_running := False\<rparr>)\<lparr>hardware := stop (hardware m)\<rparr>"

definition mc_set_target_speed :: "main_state \<Rightarrow> real \<Rightarrow> main_state" where
  "mc_set_target_speed m speed = m\<lparr>mc_target_speed := Some speed\<rparr>"

definition set_control_mode :: "main_state \<Rightarrow> string \<Rightarrow> main_state" where
  "set_control_mode m mode =
     (if mode \<in> set [''manual'', ''anfis''] then m\<lparr>control_mode := mode\<rparr> else m)"

definition mc_emergency_stop :: "main_state \<Rightarrow> main_state" where
  "mc_emergency_stop m =
     (let m1 = mc_stop m in m1\<lparr>hardware := emergency_stop (hardware m1)\<rparr>)"

subsection \<open>Executions as sequences of events\<close>

text \<open>
  The commands of the two controllers, the scheduler tick and the monitoring step, taken
  one at a time. A tick is the loop test and one pass through the loop body; it does nothing
  once the loop has ended.
\<close>

datatype event =
    Start
  | Stop
  | EmergencyStop
  | SetTargetSpeed real
  | SetControlMode string
  | Tick real
  | HwStart
  | HwStop
  | HwEmergencyStop
  | HwResetEmergencyStop bool
  | HwSetTargetSpeed real
  | HwSetDutyCycle real
  | MonitorStep real real real

fun exec_event :: "main_state \<Rightarrow> event \<Rightarrow> main_state" where
  "exec_event m Start = mc_start m"
| "exec_event m Stop = mc_stop m"
| "exec_event m EmergencyStop = mc_emergency_stop m"
| "exec_event m (SetTargetSpeed v) = mc_set_target_speed m v"
| "exec_event m (SetControlMode mode) = set_control_mode m mode"
| "exec_event m (Tick now) =
     (case control_loop_iteration m now of None \<Rightarrow> m | Some m' \<Rightarrow> m')"
| "exec_event m HwStart = m\<lparr>hardware := start (hardware m)\<rparr>"
| "exec_event m HwStop = m\<lparr>hardware := stop (hardware m)\<rparr>"
| "exec_event m HwEmergencyStop = m\<lparr>hardware := emergency_stop (hardware m)\<rparr>"
| "exec_event m (HwResetEmergencyStop pin_high) =
     m\<lparr>hardware := fst (reset_emergency_stop (hardware m) pin_high)\<rparr>"
| "exec_event m (HwSetTargetSpeed v) = m\<lparr>hardware := set_target_speed (hardware m) v\<rparr>"
| "exec_event m (HwSetDutyCycle v) = m\<lparr>hardware := set_duty_cycle (hardware m) v\<rparr>"
| "exec_event m (MonitorStep now n1 n2) =
     m\<lparr>hardware := monitoring_iteration (hardware m) now n1 n2\<rparr>"

definition exec_events :: "main_state \<Rightarrow> event list \<Rightarrow> main_state" where
  "exec_events m es = foldl exec_event m es"

section \<open>Construction and a sample configuration\<close>

text \<open>
  \<open>HardwareController.__init__\<close> in simulation mode (no GPIO), with the speed bounds of
  the configuration and the time of construction.
\<close>

definition hw_init :: "real \<Rightarrow> real \<Rightarrow> real \<Rightarrow> hw_state" where
  "hw_init lo hi now =
     \<lparr> simulation_mode = True, gpio_available = False, running = False,
       emergency_stop_active = False, current_speed = 0, current_current = base_current,
       target_speed = 0, duty_cycle = 0, last_sim_time = now,
       min_speed_rpm = lo, max_speed_rpm = hi,
       motor_in1 = False, motor_in2 = False, pwm_duty = 0 \<rparr>"

text \<open>\<open>MainController.__init__\<close>.\<close>

definition mc_init :: "hw_state \<Rightarrow> anfis_state \<Rightarrow> main_state" where
  "mc_init h a =
     \<lparr> mc_running = False, control_mode = ''manual'', logging_enabled = True,
       mc_target_speed = None, hardware = h, anfis = a, session_data = [], mc_log = [] \<rparr>"

text \<open>
  A configuration with two inputs and three triangular sets per input, the outer two of
  them degenerate, and a consequent matrix whose rows are all \<open>[bias, 0, gain]\<close>.
\<close>

definition sample_ranges :: "real list list" where
  "sample_ranges = [[- 100, - 100, 0], [- 50, 0, 50], [0, 100, 100]]"

definition sample_config :: anfis_config where
  "sample_config =
     \<lparr> cfg_input_vars = 2, cfg_membership_functions = 3, cfg_training_epochs = 5,
       cfg_error_ranges = sample_ranges, cfg_delta_error_ranges = sample_ranges,
       cfg_learning_rate = 1 / 100, cfg_momentum = 9 / 10, cfg_error_goal = 1 / 1000 \<rparr>"

definition sample_anfis :: "real \<Rightarrow> real \<Rightarrow> anfis_state" where
  "sample_anfis bias gain =
     initialize_parameters sample_config (\<lambda>k c. if c = 0 then bias else if c = 1 then 0 else gain)"

text \<open>
  A freshly constructed system in simulation mode, and the same system after it has been
  started in manual mode with a duty cycle of 40, and in adaptive mode with a target speed
  of 50.
\<close>

definition fresh_system :: main_state where
  "fresh_system = mc_init (hw_init 0 1750 0) (sample_anfis 50 1)"



text \<open>A system on real hardware (GPIO present) whose emergency stop has been activated.\<close>

definition stopped_real_system :: main_state where
  "stopped_real_system =
     mc_init (emergency_stop ((hw_init 0 1750 0)\<lparr>simulation_mode := False, gpio_available := True\<rparr>))
       (sample_anfis 50 1)"

section \<open>Predicates on configurations and events\<close>

text \<open>
  A valid configuration of the two-input system: two input variables, as many fuzzy sets
  per input as the membership-function count says, each set a triple \<open>a \<le> b \<le> c\<close>.
\<close>

definition valid_range :: "real list \<Rightarrow> bool" where
  "valid_range r = (case r of [a, b, c] \<Rightarrow> a \<le> b \<and> b \<le> c | _ \<Rightarrow> False)"

definition valid_config :: "anfis_config \<Rightarrow> bool" where
  "valid_config cfg =
     (cfg_input_vars cfg = 2
      \<and> length (cfg_error_ranges cfg) = cfg_membership_functions cfg
      \<and> length (cfg_delta_error_ranges cfg) = cfg_membership_functions cfg
      \<and> list_all valid_range (cfg_error_ranges cfg)
      \<and> list_all valid_range (cfg_delta_error_ranges cfg))"

text \<open>The same for a controller state, together with the rule count of the constructor.\<close>

definition valid_anfis :: "anfis_state \<Rightarrow> bool" where
  "valid_anfis s =
     (num_inputs s = 2
      \<and> num_rules s = num_mf s ^ num_inputs s
      \<and> length (error_ranges s) = num_mf s
      \<and> length (delta_error_ranges s) = num_mf s
      \<and> list_all valid_range (error_ranges s)
      \<and> list_all valid_range (delta_error_ranges s))"

text \<open>The events that clear the emergency-stop flag in the code.\<close>

fun clears_emergency_stop :: "event \<Rightarrow> bool" where
  "clears_emergency_stop Start = True"
| "clears_emergency_stop HwStart = True"
| "clears_emergency_stop (HwResetEmergencyStop pin_high) = True"
| "clears_emergency_stop e = False"

text \<open>The speed-noise draw of a monitoring step (0 for every other event).\<close>

fun speed_noise :: "event \<Rightarrow> real" where
  "speed_noise (MonitorStep now n1 n2) = n1"
| "speed_noise e = 0"

section \<open>Membership grades\<close>

lemma membership_function_trimf:
  "membership_function x [a, b, c] ''trimf'' =
     (if x \<le> a \<or> x \<ge> c then Inr 0
      else if x \<le> b then Inr ((x - a) / (b - a))
      else Inr ((c - x) / (c - b)))"
  by (simp add: membership_function_def py_div_def)

lemma membership_function_range:
  assumes "membership_function x params t = Inr g"
  shows "0 \<le> g \<and> g \<le> 1"
proof -
  from assms obtain a b c where p: "params = [a, b, c]" and t: "t = ''trimf''"
    by (auto simp: membership_function_def split: if_splits list.splits)
  show ?thesis
  proof (cases "x \<le> a \<or> x \<ge> c")
    case True
    with assms p t show ?thesis by (simp add: membership_function_trimf)
  next
    case False
    then have xa: "a < x" and xc: "x < c" by auto
    show ?thesis
    proof (cases "x \<le> b")
      case True
      with False assms p t have g: "g = (x - a) / (b - a)"
        by (simp add: membership_function_trimf)
      from xa True have "0 < b - a" "x - a \<le> b - a" "0 \<le> x - a" by auto
      then show ?thesis unfolding g by (simp add: divide_le_eq_1)
    next
      case nb: False
      with False assms p t have g: "g = (c - x) / (c - b)"
        by (simp add: membership_function_trimf)
      from xc nb have "0 < c - b" "c - x \<le> c - b" "0 \<le> c - x" by auto
      then show ?thesis unfolding g by (simp add: divide_le_eq_1)
    qed
  qed
qed

text \<open>
  C5 (as amended). For a triangular set with \<open>a \<le> b \<le> c\<close> the grade is 0 for
  \<open>x \<le> a\<close> or \<open>x \<ge> c\<close>, \<open>(x - a) / (b - a)\<close> on the rising side below \<open>c\<close> (so 1 at the
  peak of a set with \<open>a < b < c\<close>) and \<open>(c - x) / (c - b)\<close> on the falling side; the
  evaluation never raises ZeroDivisionError; and in a degenerate set (\<open>a = b\<close> or \<open>b = c\<close>)
  the grade at the shared point is 0, because the test of the feet comes first.
\<close>

theorem membership_function_reference:
  assumes "a \<le> b" and "b \<le> c"
  shows "(x \<le> a \<or> x \<ge> c \<longrightarrow> membership_function x [a, b, c] ''trimf'' = Inr 0)
       \<and> (a < x \<and> x \<le> b \<and> x < c \<longrightarrow>
            membership_function x [a, b, c] ''trimf'' = Inr ((x - a) / (b - a)))
       \<and> (a < b \<and> b < c \<longrightarrow> membership_function b [a, b, c] ''trimf'' = Inr 1)
       \<and> (b < x \<and> x < c \<longrightarrow>
            membership_function x [a, b, c] ''trimf'' = Inr ((c - x) / (c - b)))
       \<and> membership_function x [a, b, c] ''trimf'' \<noteq> Inl ZeroDivisionError
       \<and> (a = b \<longrightarrow> membership_function b [a, b, c] ''trimf'' = Inr 0)
       \<and> (b = c \<longrightarrow> membership_function b [a, b, c] ''trimf'' = Inr 0)"
  using assms by (auto simp: membership_function_trimf)

theorem membership_function_reference_witness:
  "membership_function (- 60) [- 50, 0, 50] ''trimf'' = Inr 0
   \<and> membership_function (- 25) [- 50, 0, 50] ''trimf'' = Inr (1 / 2)
   \<and> membership_function 0 [- 50, 0, 50] ''trimf'' = Inr 1
   \<and> membership_function 10 [- 50, 0, 50] ''trimf'' = Inr (4 / 5)
   \<and> membership_function (- 100) [- 100, - 100, 0] ''trimf'' = Inr 0
   \<and> membership_function 100 [0, 100, 100] ''trimf'' = Inr 0"
  using membership_function_reference [of "- 50" 0 50 "- 60"]
        membership_function_reference [of "- 50" 0 50 "- 25"]
        membership_function_reference [of "- 50" 0 50 10]
        membership_function_reference [of "- 100" "- 100" 0 0]
        membership_function_reference [of 0 100 100 0]
  by simp

text \<open>
  C5 as stated fails: at the shared point of the degenerate set \<open>(-100, -100, 0)\<close> the
  grade is 0, not 1.
\<close>

theorem degenerate_peak_counterexample:
  "membership_function (- 100) [- 100, - 100, 0] ''trimf'' = Inr 0
   \<and> membership_function (- 100) [- 100, - 100, 0] ''trimf'' \<noteq> Inr 1"
  by (simp add: membership_function_trimf)

section \<open>Target speed\<close>

text \<open>
  C10. \<open>set_target_speed\<close> stores the argument clipped to the configured bounds and leaves
  the bounds alone; when the bounds form a range (\<open>min_speed_rpm \<le> max_speed_rpm\<close>) the
  stored target speed lies within it.
\<close>

theorem set_target_speed_clamped:
  "target_speed (set_target_speed h speed) = np_clip speed (min_speed_rpm h) (max_speed_rpm h)
   \<and> min_speed_rpm (set_target_speed h speed) = min_speed_rpm h
   \<and> max_speed_rpm (set_target_speed h speed) = max_speed_rpm h
   \<and> (min_speed_rpm h \<le> max_speed_rpm h \<longrightarrow>
        min_speed_rpm h \<le> target_speed (set_target_speed h speed)
        \<and> target_speed (set_target_speed h speed) \<le> max_speed_rpm h)"
  by (simp add: set_target_speed_def np_clip_def)

theorem set_target_speed_clamped_witness:
  "target_speed (set_target_speed (hw_init 0 1750 0) 2000) = 1750
   \<and> target_speed (set_target_speed (hw_init 0 1750 0) (- 5)) = 0
   \<and> target_speed (set_target_speed (hw_init 0 1750 0) 500) = 500"
  using set_target_speed_clamped [of "hw_init 0 1750 0" 2000]
        set_target_speed_clamped [of "hw_init 0 1750 0" "- 5"]
        set_target_speed_clamped [of "hw_init 0 1750 0" 500]
  by (simp add: hw_init_def np_clip_def)

section \<open>The control output\<close>

lemma calculate_control_state:
  "fst (calculate_control s error) =
     s\<lparr>last_error := Some error,
       anfis_log := anfis_log s @
         (case control_raw (s\<lparr>last_error := Some error\<rparr>) error (delta_of s error) of
            Inr control \<Rightarrow> [] | Inl e \<Rightarrow> [ErrorControl e])\<rparr>"
  by (simp add: calculate_control_def Let_def split: sum.splits)






section \<open>Training\<close>

lemma train_samples_state:
  "\<exists>le lg. fst (train_samples s training_data acc) = s\<lparr>last_error := le, anfis_log := lg\<rparr>"
proof (induction training_data arbitrary: s acc)
  case Nil
  have "s = s\<lparr>last_error := last_error s, anfis_log := anfis_log s\<rparr>" by simp
  then show ?case by (metis train_samples.simps(1) fst_conv)
next
  case (Cons x xs)
  obtain error delta_error target where x: "x = (error, delta_error, target)"
    by (cases x) auto
  obtain s' out where cc: "calculate_control s error = (s', out)"
    by (cases "calculate_control s error") auto
  from calculate_control_state [of s error] cc
  obtain lg0 where s': "s' = s\<lparr>last_error := Some error, anfis_log := lg0\<rparr>"
    by auto
  from Cons.IH [of s' "acc + (target - out) ^ 2"]
  obtain le lg where
    "fst (train_samples s' xs (acc + (target - out) ^ 2)) = s'\<lparr>last_error := le, anfis_log := lg\<rparr>"
    by blast
  then show ?case
    by (auto simp: x cc s')
qed

lemma train_samples_fields:
  "consequent_params (fst (train_samples s d acc)) = consequent_params s"
  "error_goal (fst (train_samples s d acc)) = error_goal s"
  "training_epoch (fst (train_samples s d acc)) = training_epoch s"
  "is_trained (fst (train_samples s d acc)) = is_trained s"
proof -
  obtain le lg where e: "fst (train_samples s d acc) = s\<lparr>last_error := le, anfis_log := lg\<rparr>"
    using train_samples_state by blast
  show "consequent_params (fst (train_samples s d acc)) = consequent_params s"
    "error_goal (fst (train_samples s d acc)) = error_goal s"
    "training_epoch (fst (train_samples s d acc)) = training_epoch s"
    "is_trained (fst (train_samples s d acc)) = is_trained s"
    by (simp_all add: e)
qed

lemma train_epochs_params:
  "consequent_params (fst (train_epochs s d n es)) = consequent_params s"
proof (induction es arbitrary: s)
  case Nil
  then show ?case by simp
next
  case (Cons epoch rest)
  obtain s1 ee where ts: "train_samples s d 0 = (s1, ee)"
    by (cases "train_samples s d 0") auto
  have s1: "consequent_params s1 = consequent_params s"
    using train_samples_fields(1) [of s d 0] ts by simp
  show ?case
    by (simp add: ts Let_def s1 Cons.IH split: sum.splits)
qed

text \<open>
  C3 fails on the code: whatever the sample set and the epoch count, \<open>train\<close> returns
  with the consequent matrix it started with.
\<close>

theorem train_keeps_consequent_params:
  "consequent_params (train s training_data) = consequent_params s"
proof -
  obtain s' r where
    te: "train_epochs s training_data (training_epochs s) [0 ..< training_epochs s] = (s', r)"
    by (cases "train_epochs s training_data (training_epochs s) [0 ..< training_epochs s]") auto
  have "consequent_params s' = consequent_params s"
    using train_epochs_params [of s training_data "training_epochs s" "[0 ..< training_epochs s]"] te
    by simp
  then show ?thesis
    by (simp add: train_def te split: option.splits)
qed

section \<open>The rule engine\<close>

lemma rule_inner_loop_ok:
  assumes "i < length eg" and "\<forall>j \<in> set js. j < length dg" and "k + length js \<le> length fs"
  shows "\<exists>fs'. rule_inner_loop eg dg i js (fs, k) = Inr (fs', k + length js)
           \<and> length fs' = length fs
           \<and> (\<forall>p < length js. fs' ! (k + p) = min (eg ! i) (dg ! (js ! p)))
           \<and> (\<forall>q < k. fs' ! q = fs ! q)"
  using assms
proof (induction js arbitrary: fs k)
  case Nil
  then show ?case by simp
next
  case (Cons j js)
  let ?v = "min (eg ! i) (dg ! j)"
  have kl: "k < length fs" using Cons.prems(3) by simp
  have step: "rule_inner_loop eg dg i (j # js) (fs, k)
                = rule_inner_loop eg dg i js (fs[k := ?v], k + 1)"
    using Cons.prems(1,2) kl by (simp add: py_index_def np_setitem_def)
  from Cons.IH [of "k + 1" "fs[k := ?v]"] Cons.prems
  obtain fs' where r: "rule_inner_loop eg dg i js (fs[k := ?v], k + 1) = Inr (fs', k + 1 + length js)"
    and l: "length fs' = length fs"
    and v: "\<forall>p < length js. fs' ! (k + 1 + p) = min (eg ! i) (dg ! (js ! p))"
    and u: "\<forall>q < k + 1. fs' ! q = fs[k := ?v] ! q"
    by auto
  have "\<forall>p < length (j # js). fs' ! (k + p) = min (eg ! i) (dg ! ((j # js) ! p))"
  proof (intro allI impI)
    fix p assume p: "p < length (j # js)"
    show "fs' ! (k + p) = min (eg ! i) (dg ! ((j # js) ! p))"
    proof (cases p)
      case 0
      with u kl show ?thesis by simp
    next
      case (Suc p')
      with p v show ?thesis by simp
    qed
  qed
  moreover have "\<forall>q < k. fs' ! q = fs ! q"
    using u by simp
  ultimately show ?case
    using step r l by simp
qed

lemma rule_outer_loop_ok:
  assumes "\<forall>i \<in> set is. i < length eg" and "n \<le> length dg" and "k + length is * n \<le> length fs"
  shows "\<exists>fs'. rule_outer_loop eg dg n is (fs, k) = Inr (fs', k + length is * n)
           \<and> length fs' = length fs
           \<and> (\<forall>p < length is. \<forall>j < n. fs' ! (k + p * n + j) = min (eg ! (is ! p)) (dg ! j))
           \<and> (\<forall>q < k. fs' ! q = fs ! q)"
  using assms
proof (induction "is" arbitrary: fs k)
  case Nil
  then show ?case by simp
next
  case (Cons i "is")
  have "i < length eg" using Cons.prems(1) by simp
  moreover have "\<forall>j \<in> set [0 ..< n]. j < length dg" using Cons.prems(2) by simp
  moreover have "k + length [0 ..< n] \<le> length fs" using Cons.prems(3) by simp
  ultimately obtain fs1 where
    i1: "rule_inner_loop eg dg i [0 ..< n] (fs, k) = Inr (fs1, k + n)"
    and l1: "length fs1 = length fs"
    and v1: "\<forall>p < n. fs1 ! (k + p) = min (eg ! i) (dg ! p)"
    and u1: "\<forall>q < k. fs1 ! q = fs ! q"
    using rule_inner_loop_ok [of i eg "[0 ..< n]" dg k fs] by auto
  have "k + n + length is * n \<le> length fs1" using Cons.prems(3) l1 by simp
  with Cons.IH [of "k + n" fs1] Cons.prems(1,2)
  obtain fs' where
    r: "rule_outer_loop eg dg n is (fs1, k + n) = Inr (fs', k + n + length is * n)"
    and l: "length fs' = length fs1"
    and v: "\<forall>p < length is. \<forall>j < n. fs' ! (k + n + p * n + j) = min (eg ! (is ! p)) (dg ! j)"
    and u: "\<forall>q < k + n. fs' ! q = fs1 ! q"
    by auto
  have "\<forall>p < length (i # is). \<forall>j < n. fs' ! (k + p * n + j) = min (eg ! ((i # is) ! p)) (dg ! j)"
  proof (intro allI impI)
    fix p j assume p: "p < length (i # is)" and j: "j < n"
    show "fs' ! (k + p * n + j) = min (eg ! ((i # is) ! p)) (dg ! j)"
    proof (cases p)
      case 0
      with u v1 j show ?thesis by simp
    next
      case (Suc p')
      with p j v have "fs' ! (k + n + p' * n + j) = min (eg ! (is ! p')) (dg ! j)" by simp
      with Suc show ?thesis by (simp add: add.assoc add.left_commute)
    qed
  qed
  moreover have "\<forall>q < k. fs' ! q = fs ! q" using u u1 by simp
  ultimately show ?case
    using i1 r l l1 by (simp add: add.assoc)
qed

lemma mf_grades_ok:
  assumes "list_all valid_range rs"
  shows "\<exists>gs. mf_grades x rs = Inr gs \<and> length gs = length rs
           \<and> (\<forall>i < length rs. membership_function x (rs ! i) ''trimf'' = Inr (gs ! i))"
  using assms
proof (induction rs)
  case Nil
  then show ?case by simp
next
  case (Cons r rs)
  from Cons.prems obtain a b c where r: "r = [a, b, c]"
    by (auto simp: valid_range_def split: list.splits)
  have "\<exists>g. membership_function x r ''trimf'' = Inr g"
    unfolding r by (simp add: membership_function_trimf)
  then obtain g where g: "membership_function x r ''trimf'' = Inr g" ..
  from Cons obtain gs where gs: "mf_grades x rs = Inr gs" "length gs = length rs"
    "\<forall>i < length rs. membership_function x (rs ! i) ''trimf'' = Inr (gs ! i)"
    by auto
  have "\<forall>i < length (r # rs). membership_function x ((r # rs) ! i) ''trimf'' = Inr ((g # gs) ! i)"
  proof (intro allI impI)
    fix i assume "i < length (r # rs)"
    then show "membership_function x ((r # rs) ! i) ''trimf'' = Inr ((g # gs) ! i)"
      using g gs(3) by (cases i) auto
  qed
  then show ?case using g gs by simp
qed

lemma firing_strengths_valid:
  assumes "valid_anfis s"
  shows "\<exists>fs. calculate_rule_firing_strengths s error delta_error = Inr fs
           \<and> length fs = num_rules s
           \<and> (\<forall>i < num_mf s. \<forall>j < num_mf s. \<exists>gi gj.
                 membership_function error (error_ranges s ! i) ''trimf'' = Inr gi
               \<and> membership_function delta_error (delta_error_ranges s ! j) ''trimf'' = Inr gj
               \<and> fs ! (i * num_mf s + j) = min gi gj)"
proof -
  let ?n = "num_mf s"
  from assms have nr: "num_rules s = ?n * ?n"
    and le: "length (error_ranges s) = ?n" and ld: "length (delta_error_ranges s) = ?n"
    and ve: "list_all valid_range (error_ranges s)"
    and vd: "list_all valid_range (delta_error_ranges s)"
    by (simp_all add: valid_anfis_def power2_eq_square)
  from mf_grades_ok [OF ve, of error] le obtain eg where
    eg: "mf_grades error (error_ranges s) = Inr eg" "length eg = ?n"
    "\<forall>i < ?n. membership_function error (error_ranges s ! i) ''trimf'' = Inr (eg ! i)"
    by auto
  from mf_grades_ok [OF vd, of delta_error] ld obtain dg where
    dg: "mf_grades delta_error (delta_error_ranges s) = Inr dg" "length dg = ?n"
    "\<forall>j < ?n. membership_function delta_error (delta_error_ranges s ! j) ''trimf'' = Inr (dg ! j)"
    by auto
  have "\<forall>i \<in> set [0 ..< ?n]. i < length eg" using eg(2) by simp
  moreover have "?n \<le> length dg" using dg(2) by simp
  moreover have "0 + length [0 ..< ?n] * ?n \<le> length (np_zeros (num_rules s))"
    by (simp add: np_zeros_def nr)
  ultimately obtain fs where
    r: "rule_outer_loop eg dg ?n [0 ..< ?n] (np_zeros (num_rules s), 0)
          = Inr (fs, 0 + length [0 ..< ?n] * ?n)"
    and l: "length fs = length (np_zeros (num_rules s))"
    and v: "\<forall>p < length [0 ..< ?n]. \<forall>j < ?n.
              fs ! (0 + p * ?n + j) = min (eg ! ([0 ..< ?n] ! p)) (dg ! j)"
    using rule_outer_loop_ok [of "[0 ..< ?n]" eg ?n dg 0 "np_zeros (num_rules s)"] by blast
  have c: "calculate_rule_firing_strengths s error delta_error = Inr fs"
    by (simp add: calculate_rule_firing_strengths_def eg(1) dg(1) r)
  have "\<forall>i < ?n. \<forall>j < ?n. fs ! (i * ?n + j) = min (eg ! i) (dg ! j)"
    using v by simp
  with eg(3) dg(3) have "\<forall>i < ?n. \<forall>j < ?n. \<exists>gi gj.
                 membership_function error (error_ranges s ! i) ''trimf'' = Inr gi
               \<and> membership_function delta_error (delta_error_ranges s ! j) ''trimf'' = Inr gj
               \<and> fs ! (i * ?n + j) = min gi gj"
    by blast
  with c l show ?thesis by (simp add: np_zeros_def)
qed

lemma valid_config_state:
  "valid_config cfg \<Longrightarrow> valid_anfis (initialize_parameters cfg rnd)"
  by (simp add: valid_config_def valid_anfis_def initialize_parameters_def)

text \<open>
  C8. For a valid configuration the rule engine returns exactly
  \<open>membership_functions ^ input_vars\<close> firing strengths, as many as the consequent matrix
  has rows, and the strength at position \<open>i * membership_functions + j\<close> (outer loop over
  the error sets, inner loop over the delta_error sets) is the minimum of the grade of
  \<open>error\<close> in error set \<open>i\<close> and the grade of \<open>delta_error\<close> in delta_error set \<open>j\<close>.
\<close>

theorem rule_engine_canonical:
  assumes "valid_config cfg"
  shows "\<exists>fs. calculate_rule_firing_strengths (initialize_parameters cfg rnd) error delta_error = Inr fs
           \<and> length fs = cfg_membership_functions cfg ^ cfg_input_vars cfg
           \<and> length (consequent_params (initialize_parameters cfg rnd)) = length fs
           \<and> (\<forall>i < cfg_membership_functions cfg. \<forall>j < cfg_membership_functions cfg. \<exists>gi gj.
                 membership_function error (cfg_error_ranges cfg ! i) ''trimf'' = Inr gi
               \<and> membership_function delta_error (cfg_delta_error_ranges cfg ! j) ''trimf'' = Inr gj
               \<and> fs ! (i * cfg_membership_functions cfg + j) = min gi gj)"
proof -
  let ?s = "initialize_parameters cfg rnd"
  have f: "num_rules ?s = cfg_membership_functions cfg ^ cfg_input_vars cfg"
    "num_mf ?s = cfg_membership_functions cfg"
    "error_ranges ?s = cfg_error_ranges cfg"
    "delta_error_ranges ?s = cfg_delta_error_ranges cfg"
    "length (consequent_params ?s) = cfg_membership_functions cfg ^ cfg_input_vars cfg"
    by (simp_all add: initialize_parameters_def)
  from firing_strengths_valid [OF valid_config_state [OF assms], of rnd error delta_error]
  show ?thesis unfolding f by auto
qed

lemma sample_config_valid: "valid_config sample_config"
  by (simp add: valid_config_def sample_config_def sample_ranges_def valid_range_def)

theorem rule_engine_canonical_witness:
  "\<exists>fs. calculate_rule_firing_strengths (sample_anfis 50 1) 0 10 = Inr fs
         \<and> length fs = 9 \<and> fs ! 4 = 4 / 5 \<and> fs ! 5 = 1 / 10 \<and> fs ! 0 = 0"
proof -
  from rule_engine_canonical [OF sample_config_valid, of "\<lambda>k c. if c = 0 then 50 else if c = 1 then 0 else 1" 0 10]
  obtain fs where
    c: "calculate_rule_firing_strengths (sample_anfis 50 1) 0 10 = Inr fs"
    and l: "length fs = 9"
    and v: "\<forall>i < 3. \<forall>j < 3. \<exists>gi gj.
                 membership_function 0 (sample_ranges ! i) ''trimf'' = Inr gi
               \<and> membership_function 10 (sample_ranges ! j) ''trimf'' = Inr gj
               \<and> fs ! (i * 3 + j) = min gi gj"
    by (auto simp: sample_anfis_def sample_config_def)
  from v [rule_format, of 1 1] have v4: "fs ! 4 = 4 / 5"
    by (auto simp: sample_ranges_def membership_function_trimf)
  from v [rule_format, of 1 2] have v5: "fs ! 5 = 1 / 10"
    by (auto simp: sample_ranges_def membership_function_trimf)
  from v [rule_format, of 0 0] have v0: "fs ! 0 = 0"
    by (auto simp: sample_ranges_def membership_function_trimf)
  from c l v4 v5 v0 show ?thesis by blast
qed

section \<open>Normalization of the firing strengths\<close>

lemma sum_list_divide_const: "sum_list (map (\<lambda>f. f / c) fs) = sum_list fs / (c::real)"
  by (induction fs) (simp_all add: add_divide_distrib)

lemma epsilon_pos: "0 < epsilon"
  by (simp add: epsilon_def)

lemma normalize_firing_sum:
  "sum_list (normalize_firing fs) = sum_list fs / (sum_list fs + epsilon)"
  by (simp add: normalize_firing_def sum_list_divide_const)

lemma normalize_firing_unit:
  assumes nonneg: "\<forall>f \<in> set fs. 0 \<le> f"
  shows "\<forall>w \<in> set (normalize_firing fs). 0 \<le> w \<and> w \<le> 1"
proof
  fix w assume "w \<in> set (normalize_firing fs)"
  then obtain f where f: "f \<in> set fs" and w: "w = f / (sum_list fs + epsilon)"
    by (auto simp: normalize_firing_def)
  have f0: "0 \<le> f" using nonneg f by simp
  have "f \<le> sum_list fs" using nonneg f by (simp add: member_le_sum_list)
  then have "f \<le> sum_list fs + epsilon" and "0 < sum_list fs + epsilon"
    using epsilon_pos f0 by simp_all
  then show "0 \<le> w \<and> w \<le> 1" unfolding w using f0 by simp
qed

lemma normalized_sum_range:
  assumes nonneg: "\<forall>f \<in> set fs. 0 \<le> (f::real)"
  shows "0 \<le> sum_list (normalize_firing fs) \<and> sum_list (normalize_firing fs) < 1
       \<and> ((\<forall>f \<in> set fs. f = 0) \<longrightarrow> sum_list (normalize_firing fs) = 0)
       \<and> ((\<exists>f \<in> set fs. f \<noteq> 0) \<longrightarrow> 0 < sum_list (normalize_firing fs))"
proof -
  have s0: "0 \<le> sum_list fs" using nonneg by (simp add: sum_list_nonneg)
  have d: "0 < sum_list fs + epsilon" using s0 epsilon_pos by simp
  have a: "0 \<le> sum_list fs / (sum_list fs + epsilon)" using s0 d by simp
  have b: "sum_list fs / (sum_list fs + epsilon) < 1" using d epsilon_pos by simp
  have z: "(\<forall>f \<in> set fs. f = 0) \<longrightarrow> sum_list fs = 0"
    by (induction fs) auto
  have p: "(\<exists>f \<in> set fs. f \<noteq> 0) \<longrightarrow> 0 < sum_list fs"
  proof
    assume "\<exists>f \<in> set fs. f \<noteq> 0"
    then obtain f where f: "f \<in> set fs" "f \<noteq> 0" by blast
    with nonneg have "0 < f" by fastforce
    moreover have "f \<le> sum_list fs" using nonneg f by (simp add: member_le_sum_list)
    ultimately show "0 < sum_list fs" by simp
  qed
  from a b z p d show ?thesis
    by (simp add: normalize_firing_sum)
qed

lemma firing_strengths_unit:
  assumes "valid_anfis s" and "calculate_rule_firing_strengths s error delta_error = Inr fs"
  shows "\<forall>f \<in> set fs. 0 \<le> f \<and> f \<le> 1"
proof
  fix f assume "f \<in> set fs"
  then obtain q where q: "q < length fs" and fq: "f = fs ! q"
    by (auto simp: in_set_conv_nth)
  let ?n = "num_mf s"
  from firing_strengths_valid [OF assms(1), of error delta_error] assms(2)
  have l: "length fs = num_rules s"
    and v: "\<forall>i < ?n. \<forall>j < ?n. \<exists>gi gj.
                 membership_function error (error_ranges s ! i) ''trimf'' = Inr gi
               \<and> membership_function delta_error (delta_error_ranges s ! j) ''trimf'' = Inr gj
               \<and> fs ! (i * ?n + j) = min gi gj"
    by auto
  from assms(1) have nr: "num_rules s = ?n * ?n"
    by (simp add: valid_anfis_def power2_eq_square)
  from q l nr have qn: "q < ?n * ?n" by simp
  then have n0: "0 < ?n" by (cases "?n") auto
  have i: "q div ?n < ?n" using qn by (simp add: less_mult_imp_div_less)
  have j: "q mod ?n < ?n" using n0 by simp
  from v i j obtain gi gj where
    gi: "membership_function error (error_ranges s ! (q div ?n)) ''trimf'' = Inr gi"
    and gj: "membership_function delta_error (delta_error_ranges s ! (q mod ?n)) ''trimf'' = Inr gj"
    and m: "fs ! (q div ?n * ?n + q mod ?n) = min gi gj"
    by blast
  have "fs ! q = min gi gj" using m by simp
  with membership_function_range [OF gi] membership_function_range [OF gj] fq
  show "0 \<le> f \<and> f \<le> 1" by (simp add: min_def)
qed

text \<open>
  C6 (as amended). For a valid controller state and every input the firing strengths are
  computed, each normalized strength lies within \<open>[0, 1]\<close>, and the sum of the normalized
  strengths is \<open>S / (S + epsilon)\<close> for the sum \<open>S\<close> of the raw strengths: it lies in
  \<open>[0, 1)\<close>, is 0 when no rule fires, and is positive but below 1 when a rule fires.
\<close>

theorem normalized_firing_bounds:
  assumes "valid_anfis s"
  shows "\<exists>fs. calculate_rule_firing_strengths s error delta_error = Inr fs
           \<and> (\<forall>w \<in> set (normalize_firing fs). 0 \<le> w \<and> w \<le> 1)
           \<and> sum_list (normalize_firing fs) = sum_list fs / (sum_list fs + epsilon)
           \<and> 0 \<le> sum_list (normalize_firing fs) \<and> sum_list (normalize_firing fs) < 1
           \<and> ((\<forall>f \<in> set fs. f = 0) \<longrightarrow> sum_list (normalize_firing fs) = 0)
           \<and> ((\<exists>f \<in> set fs. f \<noteq> 0) \<longrightarrow> 0 < sum_list (normalize_firing fs))"
proof -
  from firing_strengths_valid [OF assms, of error delta_error]
  obtain fs where c: "calculate_rule_firing_strengths s error delta_error = Inr fs" by blast
  have nonneg: "\<forall>f \<in> set fs. 0 \<le> f"
    using firing_strengths_unit [OF assms c] by blast
  from c normalize_firing_unit [OF nonneg] normalized_sum_range [OF nonneg] normalize_firing_sum [of fs]
  show ?thesis by blast
qed

lemma sample_fires: "calculate_rule_firing_strengths (sample_anfis 50 1) 0 0 = Inr [0, 0, 0, 0, 1, 0, 0, 0, 0]"
  by code_simp

lemma sample_silent: "calculate_rule_firing_strengths (sample_anfis 50 1) 200 0 = Inr [0, 0, 0, 0, 0, 0, 0, 0, 0]"
  by code_simp

lemma sample_anfis_valid: "valid_anfis (sample_anfis b g)"
  unfolding sample_anfis_def by (rule valid_config_state [OF sample_config_valid])

theorem normalized_firing_bounds_witness:
  "sum_list (normalize_firing [0, 0, 0, 0, 1, 0, 0, 0, 0]) = 1 / (1 + epsilon)
   \<and> 0 < sum_list (normalize_firing [0, 0, 0, 0, 1, 0, 0, 0, 0])
   \<and> sum_list (normalize_firing [0, 0, 0, 0, 1, 0, 0, 0, 0]) < 1
   \<and> sum_list (normalize_firing [0, 0, 0, 0, 0, 0, 0, 0, 0]) = 0"
  using normalized_firing_bounds [OF sample_anfis_valid, of 50 1 0 0]
        normalized_firing_bounds [OF sample_anfis_valid, of 50 1 200 0]
  by (simp add: sample_fires sample_silent epsilon_def)

text \<open>
  C6 as stated fails: with the rule \<open>(1, 1)\<close> firing at strength 1 the normalized sum is
  \<open>1 / (1 + 1e-10)\<close>, not 1, and with no rule firing it is 0, outside \<open>(0, 1]\<close>.
\<close>

theorem normalized_sum_counterexample:
  "calculate_rule_firing_strengths (sample_anfis 50 1) 0 0 = Inr [0, 0, 0, 0, 1, 0, 0, 0, 0]
   \<and> sum_list (normalize_firing [0, 0, 0, 0, 1, 0, 0, 0, 0]) = 10000000000 / 10000000001
   \<and> sum_list (normalize_firing [0, 0, 0, 0, 1, 0, 0, 0, 0]) \<noteq> 1
   \<and> calculate_rule_firing_strengths (sample_anfis 50 1) 200 0 = Inr [0, 0, 0, 0, 0, 0, 0, 0, 0]
   \<and> sum_list (normalize_firing [0, 0, 0, 0, 0, 0, 0, 0, 0]) = 0"
  by (simp add: sample_fires sample_silent normalize_firing_def epsilon_def)

section \<open>The epochs of a training run\<close>












section \<open>The simulated motor\<close>



lemma set_duty_cycle_fields:
  "duty_cycle (set_duty_cycle h dc) = np_clip dc (- 100) 100"
  "emergency_stop_active (set_duty_cycle h dc) = emergency_stop_active h"
  "running (set_duty_cycle h dc) = running h"
  "current_speed (set_duty_cycle h dc) = current_speed h"
  "simulation_mode (set_duty_cycle h dc) = simulation_mode h"
  by (simp_all add: set_duty_cycle_def Let_def)

lemma control_loop_body_hardware:
  "hardware (control_loop_body m now) = hardware m
   \<or> (control_mode m = ''anfis'' \<and> (\<exists>ts. mc_target_speed m = Some ts
        \<and> hardware (control_loop_body m now)
            = set_duty_cycle (hardware m)
                (snd (calculate_control (anfis m) (ts - current_speed (hardware m))))))"
  by (auto simp: control_loop_body_def anfis_control_def manual_control_def log_data_def
        get_measurements_def Let_def split: option.splits prod.splits)

lemma update_simulation_speed:
  "current_speed (update_simulation h t n1 n2) =
     max 0 (np_clip (current_speed h
               + (duty_cycle h / 100 * motor_torque_constant * max_speed
                    - motor_damping * current_speed h - load_torque) / motor_inertia
                 * (t - last_sim_time h)) 0 max_speed + n1)"
  by (simp add: update_simulation_def Let_def)

lemma update_simulation_bounds:
  "0 \<le> current_speed (update_simulation h t n1 n2)
   \<and> current_speed (update_simulation h t n1 n2) \<le> max_speed + max 0 n1"
  by (simp add: update_simulation_speed np_clip_def max_speed_def max_def min_def)

lemma exec_event_speed:
  "current_speed (hardware (exec_event m e)) = current_speed (hardware m)
   \<or> (\<exists>now n1 n2. e = MonitorStep now n1 n2
        \<and> current_speed (hardware (exec_event m e))
            = current_speed (update_simulation (hardware m) now n1 n2))"
proof (cases e)
  case (Tick now)
  then show ?thesis
    using control_loop_body_hardware [of m now]
    by (auto simp: control_loop_iteration_def set_duty_cycle_fields)
qed (auto simp: mc_start_def mc_stop_def mc_emergency_stop_def mc_set_target_speed_def
      set_control_mode_def start_def stop_def emergency_stop_def reset_emergency_stop_def
      set_target_speed_def set_duty_cycle_fields monitoring_iteration_def Let_def)

text \<open>
  C4 (as amended). Within one update the speed is integrated, clipped to
  \<open>[0, max_speed]\<close>, perturbed by the noise draw and floored at 0, so after an update it
  lies within \<open>[0, max_speed + max 0 noise]\<close>. Over any sequence of commands, ticks and
  monitoring steps whose speed-noise draws are at most \<open>B\<close>, a speed that starts within
  \<open>[0, max_speed + B]\<close> stays there.
\<close>

theorem simulated_speed_bounds:
  assumes "0 \<le> B" and "\<forall>e \<in> set es. speed_noise e \<le> B"
    and "0 \<le> current_speed (hardware m)" and "current_speed (hardware m) \<le> max_speed + B"
  shows "0 \<le> current_speed (hardware (exec_events m es))
       \<and> current_speed (hardware (exec_events m es)) \<le> max_speed + B
       \<and> current_speed (update_simulation h t n1 n2) =
           max 0 (np_clip (current_speed h
               + (duty_cycle h / 100 * motor_torque_constant * max_speed
                    - motor_damping * current_speed h - load_torque) / motor_inertia
                 * (t - last_sim_time h)) 0 max_speed + n1)
       \<and> 0 \<le> current_speed (update_simulation h t n1 n2)
       \<and> current_speed (update_simulation h t n1 n2) \<le> max_speed + max 0 n1"
proof -
  have "0 \<le> current_speed (hardware (foldl exec_event m es))
        \<and> current_speed (hardware (foldl exec_event m es)) \<le> max_speed + B"
    using assms(2-4)
  proof (induction es arbitrary: m)
    case Nil
    then show ?case by simp
  next
    case (Cons e es)
    have "0 \<le> current_speed (hardware (exec_event m e))
          \<and> current_speed (hardware (exec_event m e)) \<le> max_speed + B"
    proof -
      from exec_event_speed [of m e] show ?thesis
      proof
        assume "current_speed (hardware (exec_event m e)) = current_speed (hardware m)"
        with Cons.prems show ?thesis by simp
      next
        assume "\<exists>now n1 n2. e = MonitorStep now n1 n2
                  \<and> current_speed (hardware (exec_event m e))
                      = current_speed (update_simulation (hardware m) now n1 n2)"
        then obtain now n1 n2 where e: "e = MonitorStep now n1 n2"
          and c: "current_speed (hardware (exec_event m e))
                    = current_speed (update_simulation (hardware m) now n1 n2)"
          by blast
        from Cons.prems(1) e have "n1 \<le> B" by simp
        with assms(1) have "max 0 n1 \<le> B" by simp
        with update_simulation_bounds [of "hardware m" now n1 n2] c show ?thesis by linarith
      qed
    qed
    with Cons.IH [of "exec_event m e"] Cons.prems(1) show ?case by simp
  qed
  with update_simulation_speed [of h t n1 n2] update_simulation_bounds [of h t n1 n2]
  show ?thesis by (simp add: exec_events_def)
qed


lemma hot_start:
  "current_speed (monitoring_iteration (set_duty_cycle (start (hw_init 0 1750 0)) 100) 2 (1 / 20) 0)
     = 35001 / 20"
  by (simp add: monitoring_iteration_def set_duty_cycle_def start_def hw_init_def
        update_simulation_def Let_def np_clip_def max_speed_def motor_inertia_def
        motor_damping_def motor_torque_constant_def load_torque_def base_current_def)

text \<open>
  C4 as stated fails: a started motor at full duty whose first monitoring step comes two
  seconds after construction is clipped to \<open>max_speed\<close>, and a positive noise draw then
  lifts the speed above \<open>max_speed\<close>.
\<close>

theorem speed_above_max_counterexample:
  "current_speed (monitoring_iteration (set_duty_cycle (start (hw_init 0 1750 0)) 100) 2 (1 / 20) 0)
     = 35001 / 20
   \<and> max_speed < 35001 / 20"
  by (simp add: hot_start max_speed_def)

theorem simulated_speed_bounds_witness:
  "0 \<le> current_speed (hardware (exec_events (mc_init (hw_init 0 1750 0) (sample_anfis 0 1))
            [Start, HwSetDutyCycle 100, MonitorStep 2 (1 / 20) 0]))
   \<and> current_speed (hardware (exec_events (mc_init (hw_init 0 1750 0) (sample_anfis 0 1))
            [Start, HwSetDutyCycle 100, MonitorStep 2 (1 / 20) 0])) \<le> max_speed + 1 / 20"
  using simulated_speed_bounds [of "1 / 20" "[Start, HwSetDutyCycle 100, MonitorStep 2 (1 / 20) 0]"
          "mc_init (hw_init 0 1750 0) (sample_anfis 0 1)"]
  by (simp add: mc_init_def hw_init_def max_speed_def)

section \<open>Emergency stop and the scheduler tick\<close>

lemma emergency_stop_fields:
  "duty_cycle (emergency_stop h) = 0"
  "\<not> running (emergency_stop h)"
  "emergency_stop_active (emergency_stop h)"
  by (simp_all add: emergency_stop_def set_duty_cycle_fields np_clip_def)

lemma stop_fields:
  "duty_cycle (stop h) = 0"
  "\<not> running (stop h)"
  "emergency_stop_active (stop h) = emergency_stop_active h"
  by (simp_all add: stop_def set_duty_cycle_fields np_clip_def)

lemma mc_emergency_stop_fields:
  "\<not> mc_running (mc_emergency_stop m)"
  "duty_cycle (hardware (mc_emergency_stop m)) = 0"
  "emergency_stop_active (hardware (mc_emergency_stop m))"
  "\<not> running (hardware (mc_emergency_stop m))"
  by (simp_all add: mc_emergency_stop_def mc_stop_def Let_def emergency_stop_fields)












lemma exec_event_latched:
  assumes "\<not> clears_emergency_stop e" and "emergency_stop_active (hardware m)"
  shows "emergency_stop_active (hardware (exec_event m e))"
proof (cases e)
  case (Tick now)
  then show ?thesis
    using control_loop_body_hardware [of m now] assms(2)
    by (auto simp: control_loop_iteration_def set_duty_cycle_fields)
next
  case (MonitorStep now n1 n2)
  then show ?thesis
    using assms(2) by (simp add: monitoring_iteration_def)
qed (use assms in \<open>auto simp: mc_stop_def mc_emergency_stop_def mc_set_target_speed_def
      set_control_mode_def stop_fields emergency_stop_fields
      set_target_speed_def set_duty_cycle_fields Let_def\<close>)

lemma exec_events_latched:
  assumes "emergency_stop_active (hardware m)" and "\<forall>e \<in> set es. \<not> clears_emergency_stop e"
  shows "emergency_stop_active (hardware (foldl exec_event m es))"
  using assms
proof (induction es arbitrary: m)
  case Nil
  then show ?case by simp
next
  case (Cons e es)
  from Cons.prems have "emergency_stop_active (hardware (exec_event m e))"
    by (simp add: exec_event_latched)
  with Cons.IH [of "exec_event m e"] Cons.prems(2) show ?case by simp
qed

text \<open>
  C2 (as amended). Once the emergency stop is active it stays active over every sequence
  of commands, ticks and monitoring steps that contains neither a start nor a reset; both
  emergency-stop commands activate it; a start (of the main or of the hardware controller)
  clears it; a reset clears it and returns True in simulation mode, and returns False and
  leaves the state alone on real hardware while the stop signal is asserted.
\<close>

theorem emergency_stop_latched:
  assumes "emergency_stop_active (hardware m)" and "\<forall>e \<in> set es. \<not> clears_emergency_stop e"
  shows "emergency_stop_active (hardware (exec_events m es))
       \<and> emergency_stop_active (hardware (exec_event m' EmergencyStop))
       \<and> emergency_stop_active (hardware (exec_event m' HwEmergencyStop))
       \<and> \<not> emergency_stop_active (hardware (exec_event m Start))
       \<and> \<not> emergency_stop_active (hardware (exec_event m HwStart))
       \<and> (simulation_mode (hardware m) \<longrightarrow>
            reset_emergency_stop (hardware m) pin_high
              = ((hardware m)\<lparr>emergency_stop_active := False\<rparr>, True))
       \<and> (\<not> simulation_mode (hardware m) \<and> \<not> pin_high \<longrightarrow>
            reset_emergency_stop (hardware m) pin_high = (hardware m, False))"
  using exec_events_latched [OF assms]
  by (simp add: exec_events_def mc_emergency_stop_fields emergency_stop_fields mc_start_def
        start_def reset_emergency_stop_def)

lemma stopped_facts:
  "emergency_stop_active (hardware (exec_events fresh_system [Start, EmergencyStop]))"
  "\<not> emergency_stop_active (hardware (exec_events fresh_system [Start, EmergencyStop, Start]))"
  "simulation_mode (hardware (exec_events fresh_system [Start, EmergencyStop]))"
  by code_simp+

lemma stopped_real_facts:
  "emergency_stop_active (hardware stopped_real_system)"
  "\<not> simulation_mode (hardware stopped_real_system)"
  by code_simp+

theorem emergency_stop_latched_witness:
  "emergency_stop_active (hardware (exec_events (exec_events fresh_system [Start, EmergencyStop])
      [Tick 1, SetControlMode ''anfis'', SetTargetSpeed 50, Tick 2, HwSetDutyCycle 30,
       HwSetTargetSpeed 100, MonitorStep 3 0 0, Stop, HwStop, EmergencyStop]))
   \<and> reset_emergency_stop (hardware (exec_events fresh_system [Start, EmergencyStop])) False
       = ((hardware (exec_events fresh_system [Start, EmergencyStop]))
            \<lparr>emergency_stop_active := False\<rparr>, True)
   \<and> reset_emergency_stop (hardware stopped_real_system) False
       = (hardware stopped_real_system, False)"
  using emergency_stop_latched [of "exec_events fresh_system [Start, EmergencyStop]"
          "[Tick 1, SetControlMode ''anfis'', SetTargetSpeed 50, Tick 2, HwSetDutyCycle 30,
            HwSetTargetSpeed 100, MonitorStep 3 0 0, Stop, HwStop, EmergencyStop]" _ False]
        emergency_stop_latched [of stopped_real_system "[]" _ False]
  by (simp add: stopped_facts stopped_real_facts)

text \<open>
  C2 as stated fails: after an emergency stop, a start clears the emergency-stop flag
  without any reset.
\<close>

theorem start_clears_emergency_stop_counterexample:
  "emergency_stop_active (hardware (exec_events fresh_system [Start, EmergencyStop]))
   \<and> \<not> emergency_stop_active (hardware (exec_events fresh_system [Start, EmergencyStop, Start]))"
  by (simp add: stopped_facts)

end
